theory Spec2Isabelle
  imports Complex_Main "HOL-Library.AList"
begin

section \<open>Python values, errors and external effects\<close>

text \<open>
  The option values of \<^verbatim>\<open>covasim/settings.py\<close> are heterogeneous Python objects. The
  model keeps the kinds the module itself produces and compares: \<^verbatim>\<open>None\<close>, booleans,
  unbounded integers, (finite) floats, strings, lists and string-keyed dictionaries.
  Strings are ASCII byte lists. Values are immutable trees: \<^verbatim>\<open>set\<close> never mutates a
  stored value in place, so sharing of nested objects is not observable through it.
\<close>

datatype pyval =
    PNone
  | PBool bool
  | PInt int
  | PFloat rat
  | PStr string
  | PList "pyval list"
  | PDict "(string \<times> pyval) list"

type_synonym dict = "(string \<times> pyval) list"

text \<open>Python truth value testing (\<^verbatim>\<open>if value:\<close>).\<close>

fun truthy :: "pyval \<Rightarrow> bool" where
  "truthy PNone = False"
| "truthy (PBool b) = b"
| "truthy (PInt i) = (i \<noteq> 0)"
| "truthy (PFloat f) = (f \<noteq> 0)"
| "truthy (PStr s) = (s \<noteq> [])"
| "truthy (PList xs) = (xs \<noteq> [])"
| "truthy (PDict d) = (d \<noteq> [])"

text \<open>The test \<^verbatim>\<open>value in [None, 'default']\<close>.\<close>

definition is_default :: "pyval \<Rightarrow> bool" where
  "is_default v = (v = PNone \<or> v = PStr ''default'')"

text \<open>
  The exceptions the module can raise. \<open>KeyNotFoundError\<close> and \<open>ValueError\<close> carry the message
  the module builds. \<open>OdictKeyNotFound\<close> is the \<^verbatim>\<open>sc.KeyNotFoundError\<close> that the dictionary class
  of the utility library raises by itself when a missing key is indexed; it carries the key,
  its message being the library's. The last two are the plotting library's refusals.
\<close>

datatype error =
    KeyNotFoundError string
  | ValueError string
  | AttributeError string
  | OdictKeyNotFound string
  | RcParamRejected string pyval
  | BackendUnavailable pyval

text \<open>
  Calls into the collaborators (the plotting library, the notebook display hook and the
  reload of the numerical modules) are recorded, in order, as events.
\<close>

datatype event =
    LoadFonts
  | RcSet string pyval
  | SwitchBackend pyval
  | StyleUse string
  | InlineFormats string
  | ReloadNumba

text \<open>
  What the module reads from its host: the process environment, the plotting library's
  state at import time, Python's \<^verbatim>\<open>float()\<close> on strings, the interpreter's limit on the
  number of digits \<^verbatim>\<open>int()\<close> converts from a string (\<open>0\<close> for no limit), and whether the
  library accepts a value (its validators and backend loader raise otherwise).
\<close>

record host =
  environ :: "string \<Rightarrow> string option"
  get_backend :: string
  rc_figure_dpi :: rat
  rc_font_size :: rat
  style_available :: "string list"
  float_of_str :: "string \<Rightarrow> rat option"
  max_str_digits :: nat
  rc_accepts :: "string \<Rightarrow> pyval \<Rightarrow> bool"
  backend_accepts :: "pyval \<Rightarrow> bool"
  inline_available :: bool

section \<open>Strings\<close>

definition lower_char :: "char \<Rightarrow> char" where
  "lower_char c = (let n = (of_char c :: nat) in if 65 \<le> n \<and> n \<le> 90 then char_of (n + 32) else c)"

definition lower :: "string \<Rightarrow> string" where
  "lower s = map lower_char s"

fun startswith :: "string \<Rightarrow> string \<Rightarrow> bool" where
  "startswith s [] = True"
| "startswith [] (p # ps) = False"
| "startswith (c # cs) (p # ps) = (c = p \<and> startswith cs ps)"

text \<open>\<^verbatim>\<open>p in s\<close> on strings.\<close>

fun contains :: "string \<Rightarrow> string \<Rightarrow> bool" where
  "contains [] p = (p = [])"
| "contains (c # cs) p = (startswith (c # cs) p \<or> contains cs p)"

definition newline :: string where
  "newline = [char_of (10 :: nat)]"

definition dquote :: string where
  "dquote = [char_of (34 :: nat)]"

fun join :: "string \<Rightarrow> string list \<Rightarrow> string" where
  "join sep [] = []"
| "join sep [x] = x"
| "join sep (x # y # ys) = x @ sep @ join sep (y # ys)"

text \<open>Python's \<^verbatim>\<open>int()\<close> on an ASCII string: surrounding whitespace (tab to carriage return,
  and the blank), a sign, decimal digits with single underscores between them; more digits
  than the interpreter's limit are refused.\<close>

definition is_space :: "char \<Rightarrow> bool" where
  "is_space c = (let n = (of_char c :: nat) in (9 \<le> n \<and> n \<le> 13) \<or> n = 32)"

definition is_digit :: "char \<Rightarrow> bool" where
  "is_digit c = (let n = (of_char c :: nat) in 48 \<le> n \<and> n \<le> 57)"

definition digit_val :: "char \<Rightarrow> nat" where
  "digit_val c = of_char c - 48"

fun py_digits :: "nat \<Rightarrow> string \<Rightarrow> nat option" where
  "py_digits acc [] = Some acc"
| "py_digits acc (c # cs) =
     (if is_digit c then py_digits (10 * acc + digit_val c) cs
      else if c = CHR ''_'' then
        (case cs of
           [] \<Rightarrow> None
         | d # ds \<Rightarrow> if is_digit d then py_digits (10 * acc + digit_val d) ds else None)
      else None)"

definition py_nat :: "string \<Rightarrow> nat option" where
  "py_nat s = (case s of [] \<Rightarrow> None | c # cs \<Rightarrow> if is_digit c then py_digits (digit_val c) cs else None)"

definition int_of_str :: "nat \<Rightarrow> string \<Rightarrow> int option" where
  "int_of_str limit s =
     (let t = rev (dropWhile is_space (rev (dropWhile is_space s))) in
      if 0 < limit \<and> limit < length (filter is_digit t) then None
      else
        (case t of
           [] \<Rightarrow> None
         | c # cs \<Rightarrow>
             if c = CHR ''-'' then map_option (\<lambda>n. - int n) (py_nat cs)
             else if c = CHR ''+'' then map_option int (py_nat cs)
             else map_option int (py_nat t)))"

text \<open>\<^verbatim>\<open>int()\<close> on a float truncates towards zero.\<close>

definition trunc :: "rat \<Rightarrow> int" where
  "trunc q = (if q < 0 then - \<lfloor>- q\<rfloor> else \<lfloor>q\<rfloor>)"

section \<open>Dictionaries\<close>

text \<open>
  A Python dict is an association list with distinct keys in insertion order;
  \<^verbatim>\<open>d[k] = v\<close> is \<^const>\<open>AList.update\<close> (replace in place, else append).
  \<^verbatim>\<open>sc.mergedicts(a, b)\<close> builds a new dict, updating it with \<open>a\<close> and then \<open>b\<close>.
\<close>

definition dict_update :: "dict \<Rightarrow> dict \<Rightarrow> dict" where
  "dict_update d e = fold (\<lambda>kv acc. AList.update (fst kv) (snd kv) acc) e d"

definition mergedicts :: "dict \<Rightarrow> dict \<Rightarrow> dict" where
  "mergedicts a b = dict_update (dict_update [] a) b"

section \<open>Module constants\<close>

definition matplotlib_keys :: "string list" where
  "matplotlib_keys = [''backend'', ''style'', ''dpi'', ''font_size'', ''font_family'']"

definition numba_keys :: "string list" where
  "numba_keys = [''precision'', ''numba_parallel'', ''numba_cache'']"

definition default_fonts :: "pyval list" where
  "default_fonts = [PStr ''Arial'', PStr ''Liberation Sans'', PStr ''DejaVu Sans'', PStr ''sans-serif'']"

definition rc_simple :: dict where
  "rc_simple =
     [(''figure.facecolor'', PStr ''white''),
      (''axes.spines.right'', PBool False),
      (''axes.spines.top'', PBool False),
      (''font.family'', PStr ''sans-serif''),
      (''font.sans-serif'', PList (PStr ''Muli'' # default_fonts)),
      (''legend.frameon'', PBool False)]"

definition rc_covasim :: dict where
  "rc_covasim = mergedicts rc_simple
     [(''axes.facecolor'', PStr ''efefff''),
      (''axes.grid'', PBool True),
      (''grid.color'', PStr ''white''),
      (''grid.linestyle'', PStr ''-''),
      (''grid.linewidth'', PInt 1),
      (''font.sans-serif'', PList (PStr ''Rosario'' # PStr ''Muli'' # default_fonts))]"

text \<open>The recognized option names, in the order \<^verbatim>\<open>_set_default_options\<close> inserts them.\<close>

definition option_keys :: "string list" where
  "option_keys =
     [''verbose'', ''sep'', ''show'', ''close'', ''backend'', ''interactive'', ''style'',
      ''rc'', ''rc_simple'', ''dpi'', ''font_size'', ''font_family'',
      ''precision'', ''numba_parallel'', ''numba_cache'']"

section \<open>The options store\<close>

text \<open>
  \<open>options\<close> is the live mapping \<^verbatim>\<open>self.options\<close>, \<open>orig_options\<close> the copy taken at
  construction, \<open>trace\<close> the calls made so far into the collaborators. The help table
  \<^verbatim>\<open>optdesc\<close> is never read or written by \<^verbatim>\<open>set\<close> and is left out.
\<close>

record store =
  options :: dict
  orig_options :: dict
  trace :: "event list"

definition env_int :: "host \<Rightarrow> string \<Rightarrow> int \<Rightarrow> error + int" where
  "env_int h name dflt =
     (case environ h name of
        None \<Rightarrow> Inr dflt
      | Some s \<Rightarrow> (case int_of_str (max_str_digits h) s of None \<Rightarrow> Inl (ValueError s) | Some i \<Rightarrow> Inr i))"

definition env_float :: "host \<Rightarrow> string \<Rightarrow> rat \<Rightarrow> error + rat" where
  "env_float h name dflt =
     (case environ h name of
        None \<Rightarrow> Inr dflt
      | Some s \<Rightarrow> (case float_of_str h s of None \<Rightarrow> Inl (ValueError s) | Some f \<Rightarrow> Inr f))"

definition env_str :: "host \<Rightarrow> string \<Rightarrow> string \<Rightarrow> string" where
  "env_str h name dflt = (case environ h name of None \<Rightarrow> dflt | Some s \<Rightarrow> s)"

definition set_default_options :: "host \<Rightarrow> error + dict" where
  "set_default_options h =
     (case env_float h ''COVASIM_VERBOSE'' (1 / 10) of Inl e \<Rightarrow> Inl e | Inr verbose \<Rightarrow>
     (case env_int h ''COVASIM_SHOW'' 1 of Inl e \<Rightarrow> Inl e | Inr show \<Rightarrow>
     (case env_int h ''COVASIM_CLOSE'' 0 of Inl e \<Rightarrow> Inl e | Inr close \<Rightarrow>
     (case env_int h ''COVASIM_DPI'' (trunc (rc_figure_dpi h)) of Inl e \<Rightarrow> Inl e | Inr dpi \<Rightarrow>
     (case env_int h ''COVASIM_FONT_SIZE'' (trunc (rc_font_size h)) of Inl e \<Rightarrow> Inl e | Inr font_size \<Rightarrow>
     (case env_int h ''COVASIM_PRECISION'' 32 of Inl e \<Rightarrow> Inl e | Inr precision \<Rightarrow>
     (case env_int h ''COVASIM_NUMBA_CACHE'' 1 of Inl e \<Rightarrow> Inl e | Inr numba_cache \<Rightarrow>
      Inr [(''verbose'', PFloat verbose),
           (''sep'', PStr (env_str h ''COVASIM_SEP'' '','')),
           (''show'', PInt show),
           (''close'', PInt close),
           (''backend'', PStr (env_str h ''COVASIM_BACKEND'' (get_backend h))),
           (''interactive'', (case environ h ''COVASIM_INTERACTIVE'' of None \<Rightarrow> PBool True | Some s \<Rightarrow> PStr s)),
           (''style'', PStr (env_str h ''COVASIM_STYLE'' ''covasim'')),
           (''rc'', PDict rc_covasim),
           (''rc_simple'', PDict rc_simple),
           (''dpi'', PInt dpi),
           (''font_size'', PInt font_size),
           (''font_family'', PStr (env_str h ''COVASIM_FONT_FAMILY'' ''Rosario'')),
           (''precision'', PInt precision),
           (''numba_parallel'', PStr (env_str h ''COVASIM_NUMBA_PARALLEL'' ''none'')),
           (''numba_cache'', PBool (numba_cache \<noteq> 0))])))))))"

text \<open>\<^verbatim>\<open>Options.__init__\<close>: the defaults, their deep copy, and the font loading.\<close>

definition Options_init :: "host \<Rightarrow> error + store" where
  "Options_init h =
     (case set_default_options h of
        Inl e \<Rightarrow> Inl e
      | Inr opts \<Rightarrow> Inr \<lparr>options = opts, orig_options = opts, trace = [LoadFonts]\<rparr>)"

text \<open>\<^verbatim>\<open>get\<close> is \<^verbatim>\<open>dict.get\<close> of the live mapping; \<^verbatim>\<open>get_default\<close> indexes the copy.\<close>

definition get_opt :: "store \<Rightarrow> string \<Rightarrow> pyval" where
  "get_opt st key = (case map_of (options st) key of None \<Rightarrow> PNone | Some v \<Rightarrow> v)"

definition get_default :: "store \<Rightarrow> string \<Rightarrow> error + pyval" where
  "get_default st key = (case map_of (orig_options st) key of None \<Rightarrow> Inl (OdictKeyNotFound key) | Some v \<Rightarrow> Inr v)"

section \<open>Pushing one option into the plotting library\<close>

definition rc_assign :: "host \<Rightarrow> string \<Rightarrow> pyval \<Rightarrow> error + event list" where
  "rc_assign h name value =
     (if rc_accepts h name value then Inr [RcSet name value] else Inl (RcParamRejected name value))"

definition style_errormsg :: "host \<Rightarrow> string \<Rightarrow> string" where
  "style_errormsg h s =
     ''Style '' @ dquote @ s @ dquote @ ''; not found; options are '' @ dquote @ ''covasim'' @ dquote
       @ '' (default) plus:'' @ newline @ join newline (style_available h)"

definition set_matplotlib_global :: "host \<Rightarrow> string \<Rightarrow> pyval \<Rightarrow> pyval list option \<Rightarrow> error + event list" where
  "set_matplotlib_global h key value available_fonts =
     (if truthy value then
        if key = ''font_size'' then rc_assign h ''font.size'' value
        else if key = ''dpi'' then rc_assign h ''figure.dpi'' value
        else if key = ''backend'' then
          (if backend_accepts h value then Inr [SwitchBackend value] else Inl (BackendUnavailable value))
        else if key = ''font_family'' then
          (case available_fonts of
             None \<Rightarrow> rc_assign h ''font.family'' value
           | Some fonts \<Rightarrow> if value \<in> set fonts then rc_assign h ''font.family'' value else Inr [])
        else if key = ''style'' then
          (case value of
             PNone \<Rightarrow> Inr [StyleUse ''default'']
           | PStr s \<Rightarrow>
               if lower s = ''covasim'' then Inr [StyleUse ''default'']
               else if s \<in> set (style_available h) then Inr [StyleUse s]
               else Inl (ValueError (style_errormsg h s))
           | _ \<Rightarrow> Inl (AttributeError ''lower''))
        else Inl (KeyNotFoundError (''Key '' @ key @ '' not found''))
      else Inr [])"

section \<open>The operation \<^verbatim>\<open>set\<close>\<close>

text \<open>
  The local variable \<^verbatim>\<open>kwargs\<close> is a reference: after \<^verbatim>\<open>kwargs = self.orig_options\<close> it
  names the store's own default mapping, otherwise a dict local to the call. Reads and
  writes go through the reference.
\<close>

datatype kwargs_ref = KwOrig | KwLocal dict

fun kw_read :: "store \<Rightarrow> kwargs_ref \<Rightarrow> dict" where
  "kw_read st KwOrig = orig_options st"
| "kw_read st (KwLocal d) = d"

fun kw_write :: "string \<Rightarrow> pyval \<Rightarrow> store \<Rightarrow> kwargs_ref \<Rightarrow> store \<times> kwargs_ref" where
  "kw_write k v st KwOrig = (st\<lparr>orig_options := AList.update k v (orig_options st)\<rparr>, KwOrig)"
| "kw_write k v st (KwLocal d) = (st, KwLocal (AList.update k v d))"

definition jupyter_kwargs :: dict where
  "jupyter_kwargs = [(''dpi'', PInt 100), (''show'', PBool False), (''close'', PBool True)]"

text \<open>The guarded, best-effort notebook format call; any failure inside is swallowed.\<close>

definition jupyter_formats :: "host \<Rightarrow> event list" where
  "jupyter_formats h =
     (if (case environ h ''SPHINX_BUILD'' of None \<Rightarrow> True | Some s \<Rightarrow> s = [])
      then (if inline_available h then [InlineFormats ''retina''] else [])
      else [])"

text \<open>Lines 186--207: which overrides the call asks for.\<close>

definition resolve_kwargs :: "host \<Rightarrow> string option \<Rightarrow> pyval \<Rightarrow> dict \<Rightarrow> kwargs_ref \<times> event list" where
  "resolve_kwargs h key value kwargs =
     (case key of
        None \<Rightarrow> (KwLocal kwargs, [])
      | Some k \<Rightarrow>
          if k \<in> set [''default'', ''defaults''] then (KwOrig, [])
          else if contains (lower k) ''jupyter'' then
            (KwLocal (mergedicts jupyter_kwargs kwargs), jupyter_formats h)
          else (KwLocal (mergedicts kwargs [(k, value)]), []))"

text \<open>Lines 231--232: \<^verbatim>\<open>None\<close> and \<^verbatim>\<open>'default'\<close> stand for the captured default.\<close>

definition resolve_value :: "store \<Rightarrow> string \<Rightarrow> pyval \<Rightarrow> error + pyval" where
  "resolve_value st key value = (if is_default value then get_default st key else Inr value)"

text \<open>Lines 210--221: the expansion of \<^verbatim>\<open>interactive\<close>.\<close>

definition handle_interactive :: "store \<Rightarrow> kwargs_ref \<Rightarrow> error option \<times> store \<times> kwargs_ref" where
  "handle_interactive st r =
     (case map_of (kw_read st r) ''interactive'' of
        None \<Rightarrow> (None, st, r)
      | Some iv \<Rightarrow>
          (case resolve_value st ''interactive'' iv of
             Inl e \<Rightarrow> (Some e, st, r)
           | Inr interactive \<Rightarrow>
               if truthy interactive then
                 (case kw_write ''show'' (PBool True) st r of (st1, r1) \<Rightarrow>
                 (case kw_write ''close'' (PBool False) st1 r1 of (st2, r2) \<Rightarrow>
                 (case get_default st2 ''backend'' of
                    Inl e \<Rightarrow> (Some e, st2, r2)
                  | Inr b \<Rightarrow> (case kw_write ''backend'' b st2 r2 of (st3, r3) \<Rightarrow> (None, st3, r3)))))
               else
                 (case kw_write ''show'' (PBool False) st r of (st1, r1) \<Rightarrow>
                 (case kw_write ''backend'' (PStr ''agg'') st1 r1 of (st2, r2) \<Rightarrow> (None, st2, r2)))))"

definition key_errormsg :: "string \<Rightarrow> string list \<Rightarrow> string" where
  "key_errormsg key keylist =
     ''Option '' @ dquote @ key @ dquote @ '' not recognized; options are '' @ dquote @ ''defaults''
       @ dquote @ '' or:'' @ newline @ join newline keylist @ newline @ newline
       @ ''See help(cv.options.set) for more information.''"

text \<open>One pass of the loop body (lines 225--237). The flag says whether the key asks for
  a reload. The name \<^verbatim>\<open>options\<close> in the body is the module's single instance, the object the
  method runs on; its membership test and item assignment act on the live mapping. The value
  is stored before it is pushed into the plotting library.\<close>

definition set_item :: "host \<Rightarrow> string \<times> pyval \<Rightarrow> store \<Rightarrow> error option \<times> store \<times> bool" where
  "set_item h kv st =
     (case kv of (key, value) \<Rightarrow>
        if key \<notin> set (map fst (options st)) then
          (Some (KeyNotFoundError (key_errormsg key (map fst (orig_options st)))), st, False)
        else
          (case resolve_value st key value of
             Inl e \<Rightarrow> (Some e, st, False)
           | Inr v \<Rightarrow>
               (let st1 = st\<lparr>options := AList.update key v (options st)\<rparr>;
                    n = (key \<in> set numba_keys)
                in if key \<in> set matplotlib_keys then
                     (case set_matplotlib_global h key v None of
                        Inl e \<Rightarrow> (Some e, st1, n)
                      | Inr evs \<Rightarrow> (None, st1\<lparr>trace := trace st1 @ evs\<rparr>, n))
                   else (None, st1, n))))"

fun set_loop :: "host \<Rightarrow> dict \<Rightarrow> store \<Rightarrow> bool \<Rightarrow> error option \<times> store \<times> bool" where
  "set_loop h [] st reload_required = (None, st, reload_required)"
| "set_loop h (kv # kvs) st reload_required =
     (case set_item h kv st of
        (Some e, st1, n) \<Rightarrow> (Some e, st1, reload_required \<or> n)
      | (None, st1, n) \<Rightarrow> set_loop h kvs st1 (reload_required \<or> n))"

definition reload_numba :: "store \<Rightarrow> store" where
  "reload_numba st = st\<lparr>trace := trace st @ [ReloadNumba]\<rparr>"

text \<open>The overrides a call asks for: \<^verbatim>\<open>kwargs\<close> as lines 186--207 leave it.\<close>

definition requested_overrides :: "host \<Rightarrow> string option \<Rightarrow> pyval \<Rightarrow> dict \<Rightarrow> store \<Rightarrow> dict" where
  "requested_overrides h key value kwargs st = kw_read st (fst (resolve_kwargs h key value kwargs))"

text \<open>The overrides the loop iterates over: \<^verbatim>\<open>kwargs\<close> after the expansion.\<close>

definition resolved_overrides :: "host \<Rightarrow> string option \<Rightarrow> pyval \<Rightarrow> dict \<Rightarrow> store \<Rightarrow> dict" where
  "resolved_overrides h key value kwargs st =
     (case handle_interactive st (fst (resolve_kwargs h key value kwargs)) of
        (_, st1, r1) \<Rightarrow> kw_read st1 r1)"

text \<open>The store as the loop finds it: the notebook format call recorded and the writes of
  the expansion done.\<close>

definition loop_entry :: "host \<Rightarrow> string option \<Rightarrow> pyval \<Rightarrow> dict \<Rightarrow> store \<Rightarrow> store" where
  "loop_entry h key value kwargs st =
     (case resolve_kwargs h key value kwargs of (r, evs) \<Rightarrow>
       (case handle_interactive (st\<lparr>trace := trace st @ evs\<rparr>) r of (eo, st1, r1) \<Rightarrow> st1))"

text \<open>\<^verbatim>\<open>Options.set\<close>. The result is the exception raised, if any, and the store as the
  call leaves it.\<close>

definition set_opts :: "host \<Rightarrow> string option \<Rightarrow> pyval \<Rightarrow> dict \<Rightarrow> store \<Rightarrow> error option \<times> store" where
  "set_opts h key value kwargs st =
     (case resolve_kwargs h key value kwargs of (r, evs) \<Rightarrow>
       (case handle_interactive (st\<lparr>trace := trace st @ evs\<rparr>) r of
          (Some e, st1, r1) \<Rightarrow> (Some e, st1)
        | (None, st1, r1) \<Rightarrow>
            (case set_loop h (kw_read st1 r1) st1 False of
               (Some e, st2, reload_required) \<Rightarrow> (Some e, st2)
             | (None, st2, reload_required) \<Rightarrow>
                 (None, if reload_required then reload_numba st2 else st2))))"

text \<open>The shape every store built by \<^const>\<open>Options_init\<close> has and \<^const>\<open>set_opts\<close> keeps.\<close>

definition wf_store :: "store \<Rightarrow> bool" where
  "wf_store st = (map fst (options st) = option_keys \<and> map fst (orig_options st) = option_keys)"

text \<open>What a run of the loop decides apart from the record of external calls: the error, the
  two mappings and the reload flag.\<close>

definition outcome :: "error option \<times> store \<times> bool \<Rightarrow> error option \<times> dict \<times> dict \<times> bool" where
  "outcome x = (case x of (e, s, n) \<Rightarrow> (e, options s, orig_options s, n))"

section \<open>Concrete hosts and stores\<close>

text \<open>
  A host with an empty environment, a plotting library that accepts every value and
  knows two extra styles, and no notebook display hook. \<^verbatim>\<open>float()\<close> is never consulted
  by the hosts below, since none of them sets \<^verbatim>\<open>COVASIM_VERBOSE\<close>.
\<close>

definition host_plain :: host where
  "host_plain =
     \<lparr>environ = (\<lambda>name. None), get_backend = ''TkAgg'', rc_figure_dpi = 100, rc_font_size = 10,
      style_available = [''classic'', ''ggplot''], float_of_str = (\<lambda>s. None),
      max_str_digits = 4300,
      rc_accepts = (\<lambda>name value. True), backend_accepts = (\<lambda>value. True),
      inline_available = False\<rparr>"

definition plain_options :: dict where
  "plain_options =
     [(''verbose'', PFloat (1 / 10)),
      (''sep'', PStr '',''),
      (''show'', PInt 1),
      (''close'', PInt 0),
      (''backend'', PStr ''TkAgg''),
      (''interactive'', PBool True),
      (''style'', PStr ''covasim''),
      (''rc'', PDict rc_covasim),
      (''rc_simple'', PDict rc_simple),
      (''dpi'', PInt 100),
      (''font_size'', PInt 10),
      (''font_family'', PStr ''Rosario''),
      (''precision'', PInt 32),
      (''numba_parallel'', PStr ''none''),
      (''numba_cache'', PBool True)]"

definition store_plain :: store where
  "store_plain = \<lparr>options = plain_options, orig_options = plain_options, trace = [LoadFonts]\<rparr>"

text \<open>The plain store after \<^verbatim>\<open>set(precision=64)\<close>.\<close>

definition store_precision64 :: store where
  "store_precision64 =
     \<lparr>options = AList.update ''precision'' (PInt 64) plain_options,
      orig_options = plain_options,
      trace = [LoadFonts, ReloadNumba]\<rparr>"

text \<open>The same process started with \<^verbatim>\<open>COVASIM_SHOW=0\<close>.\<close>

definition host_show0 :: host where
  "host_show0 = host_plain\<lparr>environ := (\<lambda>name. if name = ''COVASIM_SHOW'' then Some ''0'' else None)\<rparr>"

definition store_show0 :: store where
  "store_show0 =
     \<lparr>options = AList.update ''show'' (PInt 0) plain_options,
      orig_options = AList.update ''show'' (PInt 0) plain_options,
      trace = [LoadFonts]\<rparr>"



section \<open>The loop\<close>

lemma update_keys_mem: "(k, b) \<in> set al \<Longrightarrow> map fst (AList.update k v al) = map fst al"
  by (force simp: update_keys)

lemma smg_no_reload: "set_matplotlib_global h k v af = Inr evs \<Longrightarrow> ReloadNumba \<notin> set evs"
  by (auto simp: set_matplotlib_global_def rc_assign_def split: if_splits option.splits pyval.splits)

lemma set_item_frame:
  assumes "set_item h kv st = (eo, st', n)"
  shows "orig_options st' = orig_options st"
    and "map fst (options st') = map fst (options st)"
    and "\<exists>evs. trace st' = trace st @ evs \<and> ReloadNumba \<notin> set evs"
proof -
  obtain k v where kv: "kv = (k, v)" by (cases kv)
  show "orig_options st' = orig_options st"
    using assms unfolding set_item_def kv
    by (auto simp: Let_def split: if_splits sum.splits)
  show "map fst (options st') = map fst (options st)"
    using assms unfolding set_item_def kv
    by (auto simp: Let_def update_keys_mem split: if_splits sum.splits)
  show "\<exists>evs. trace st' = trace st @ evs \<and> ReloadNumba \<notin> set evs"
    using assms unfolding set_item_def kv
    by (auto simp: Let_def dest: smg_no_reload split: if_splits sum.splits)
qed

lemma set_item_ok:
  assumes "set_item h (k, v) st = (None, st', n)"
  shows "k \<in> set (map fst (options st))"
    and "\<exists>v'. resolve_value st k v = Inr v' \<and> options st' = AList.update k v' (options st)"
    and "n = (k \<in> set numba_keys)"
  using assms
  by (auto simp: set_item_def Let_def split: if_splits sum.splits)

lemma set_item_other:
  assumes "set_item h (k, v) st = (eo, st', n)" and "k' \<noteq> k"
  shows "map_of (options st') k' = map_of (options st) k'"
  using assms
  by (auto simp: set_item_def Let_def update_conv' split: if_splits sum.splits)

lemma resolve_value_orig: "orig_options st' = orig_options st \<Longrightarrow> resolve_value st' = resolve_value st"
  by (simp add: fun_eq_iff resolve_value_def get_default_def)

lemma set_loop_frame:
  "set_loop h kvs st r = (eo, st', r') \<Longrightarrow>
     orig_options st' = orig_options st \<and> map fst (options st') = map fst (options st) \<and>
     (\<exists>evs. trace st' = trace st @ evs \<and> ReloadNumba \<notin> set evs)"
proof (induction kvs arbitrary: st r)
  case Nil
  then show ?case by simp
next
  case (Cons kv kvs)
  obtain e1 st1 n where it: "set_item h kv st = (e1, st1, n)"
    by (cases "set_item h kv st") auto
  note fr = set_item_frame [OF it]
  show ?case
  proof (cases e1)
    case None
    with Cons.prems it have "set_loop h kvs st1 (r \<or> n) = (eo, st', r')" by simp
    from Cons.IH [OF this] fr show ?thesis by auto
  next
    case (Some e)
    with Cons.prems it have "st' = st1" by simp
    with fr show ?thesis by simp
  qed
qed

lemma set_loop_other:
  "set_loop h kvs st r = (eo, st', r') \<Longrightarrow> k' \<notin> fst ` set kvs \<Longrightarrow>
     map_of (options st') k' = map_of (options st) k'"
proof (induction kvs arbitrary: st r)
  case Nil
  then show ?case by simp
next
  case (Cons kv kvs)
  obtain k v where kv: "kv = (k, v)" by (cases kv)
  obtain e1 st1 n where it: "set_item h (k, v) st = (e1, st1, n)"
    by (cases "set_item h (k, v) st") auto
  from Cons.prems kv have ne: "k' \<noteq> k" and notin: "k' \<notin> fst ` set kvs" by auto
  note step = set_item_other [OF it ne]
  show ?case
  proof (cases e1)
    case None
    with Cons.prems it kv have "set_loop h kvs st1 (r \<or> n) = (eo, st', r')" by simp
    from Cons.IH [OF this notin] step show ?thesis by simp
  next
    case (Some e)
    with Cons.prems it kv have "st' = st1" by simp
    with step show ?thesis by simp
  qed
qed

lemma set_loop_ok:
  "set_loop h kvs st r = (None, st', r') \<Longrightarrow> distinct (map fst kvs) \<Longrightarrow>
     (\<forall>k v. (k, v) \<in> set kvs \<longrightarrow>
        k \<in> set (map fst (options st)) \<and>
        (\<exists>v'. resolve_value st k v = Inr v' \<and> map_of (options st') k = Some v')) \<and>
     r' = (r \<or> (\<exists>k \<in> fst ` set kvs. k \<in> set numba_keys))"
proof (induction kvs arbitrary: st r)
  case Nil
  then show ?case by simp
next
  case (Cons kv kvs)
  obtain k v where kv: "kv = (k, v)" by (cases kv)
  obtain e1 st1 n where it: "set_item h (k, v) st = (e1, st1, n)"
    by (cases "set_item h (k, v) st") auto
  from Cons.prems kv it have e1: "e1 = None" and rest: "set_loop h kvs st1 (r \<or> n) = (None, st', r')"
    by (auto split: option.splits)
  from Cons.prems kv have dk: "k \<notin> fst ` set kvs" and dist: "distinct (map fst kvs)" by auto
  note ok = set_item_ok [OF it [unfolded e1]]
  note fr = set_item_frame [OF it]
  note ih = Cons.IH [OF rest dist]
  from ok(2) obtain v' where v': "resolve_value st k v = Inr v'" "options st1 = AList.update k v' (options st)"
    by blast
  have "map_of (options st') k = map_of (options st1) k"
    by (rule set_loop_other [OF rest dk])
  with v' have head: "map_of (options st') k = Some v'"
    by (simp add: update_conv')
  have tail: "\<forall>k2 v2. (k2, v2) \<in> set kvs \<longrightarrow>
        k2 \<in> set (map fst (options st)) \<and>
        (\<exists>v'. resolve_value st k2 v2 = Inr v' \<and> map_of (options st') k2 = Some v')"
    using ih fr(2) resolve_value_orig [OF fr(1)] by simp
  have flag: "r' = (r \<or> (\<exists>k \<in> fst ` set (kv # kvs). k \<in> set numba_keys))"
    using ih ok(3) kv by auto
  show ?case
    using head v'(1) ok(1) tail flag kv by auto
qed

lemma set_loop_err:
  "set_loop h kvs st r = (Some e, st', r') \<Longrightarrow> distinct (map fst kvs) \<Longrightarrow>
     \<exists>pre k v post st_mid r_mid n.
        kvs = pre @ (k, v) # post \<and>
        set_loop h pre st r = (None, st_mid, r_mid) \<and>
        set_item h (k, v) st_mid = (Some e, st', n)"
proof (induction kvs arbitrary: st r)
  case Nil
  then show ?case by simp
next
  case (Cons kv kvs)
  obtain k v where kv: "kv = (k, v)" by (cases kv)
  obtain e1 st1 n where it: "set_item h (k, v) st = (e1, st1, n)"
    by (cases "set_item h (k, v) st") auto
  show ?case
  proof (cases e1)
    case None
    with Cons.prems it kv have rest: "set_loop h kvs st1 (r \<or> n) = (Some e, st', r')" by simp
    from Cons.prems have "distinct (map fst kvs)" by simp
    from Cons.IH [OF rest this] obtain pre k2 v2 post st_mid r_mid n2 where
      s: "kvs = pre @ (k2, v2) # post" "set_loop h pre st1 (r \<or> n) = (None, st_mid, r_mid)"
         "set_item h (k2, v2) st_mid = (Some e, st', n2)"
      by blast
    have "kv # kvs = (kv # pre) @ (k2, v2) # post" using s(1) by simp
    moreover have "set_loop h (kv # pre) st r = (None, st_mid, r_mid)"
      using it None kv s(2) by simp
    ultimately show ?thesis using s(3) by blast
  next
    case (Some e')
    with Cons.prems it kv have "e' = e" "st' = st1" by auto
    with it Some have "set_item h (k, v) st = (Some e, st', n)" by simp
    moreover have "kv # kvs = [] @ (k, v) # kvs" using kv by simp
    moreover have "set_loop h [] st r = (None, st, r)" by simp
    ultimately show ?thesis by blast
  qed
qed

section \<open>The expansion of \<^verbatim>\<open>interactive\<close>\<close>

lemma option_keys_distinct: "distinct option_keys"
  by (simp add: option_keys_def)

lemma wf_lookup:
  assumes "wf_store st" and "k \<in> set option_keys"
  shows "\<exists>v. map_of (options st) k = Some v" and "\<exists>d. map_of (orig_options st) k = Some d"
proof -
  from assms have "k \<in> fst ` set (options st)" "k \<in> fst ` set (orig_options st)"
    by (simp_all add: wf_store_def flip: set_map)
  then show "\<exists>v. map_of (options st) k = Some v" "\<exists>d. map_of (orig_options st) k = Some d"
    by (auto simp: weak_map_of_SomeI dest!: map_of_SomeD intro: map_of_SomeD
        simp: map_of_eq_None_iff [symmetric])
qed

lemma handle_interactive_absent:
  "map_of (kw_read st r) ''interactive'' = None \<Longrightarrow> handle_interactive st r = (None, st, r)"
  by (simp add: handle_interactive_def)

lemma handle_interactive_trace:
  "handle_interactive (st\<lparr>trace := t\<rparr>) r =
     (case handle_interactive st r of (eo, st', r') \<Rightarrow> (eo, st'\<lparr>trace := t\<rparr>, r'))"
  by (cases r)
    (auto simp: handle_interactive_def resolve_value_def get_default_def
      split: option.splits sum.splits)

lemma handle_interactive_present:
  assumes "map_of (kw_read st r) ''interactive'' = Some iv"
    and "resolve_value st ''interactive'' iv = Inr i"
    and "get_default st ''backend'' = Inr b"
    and "handle_interactive st r = (eo, st', r')"
  shows "eo = None"
    and "kw_read st' r' =
      (if truthy i
       then AList.update ''backend'' b (AList.update ''close'' (PBool False)
              (AList.update ''show'' (PBool True) (kw_read st r)))
       else AList.update ''backend'' (PStr ''agg'') (AList.update ''show'' (PBool False) (kw_read st r)))"
    and "options st' = options st" and "trace st' = trace st"
    and "r = KwOrig \<Longrightarrow> r' = KwOrig"
    and "\<And>d. r = KwLocal d \<Longrightarrow> st' = st"
  using assms
  by (cases r; auto simp: handle_interactive_def get_default_def update_conv' split: option.splits if_splits)+

section \<open>Evaluation at concrete inputs\<close>

lemmas eval_defs = set_opts_def resolve_kwargs_def handle_interactive_def set_item_def resolve_value_def
  get_default_def get_opt_def is_default_def mergedicts_def dict_update_def matplotlib_keys_def numba_keys_def
  set_matplotlib_global_def rc_assign_def reload_numba_def jupyter_kwargs_def jupyter_formats_def

lemmas plain_defs = host_plain_def store_plain_def plain_options_def

lemma lower_jupyter: "lower ''jupyter'' = ''jupyter''"
  by code_simp

lemma lower_defaults: "lower ''defaults'' = ''defaults''"
  by code_simp

lemma lower_nope: "lower ''nope'' = ''nope''"
  by code_simp

lemma lower_covasim: "lower ''covasim'' = ''covasim''"
  by code_simp

lemma lower_CovaSim: "lower ''CovaSim'' = ''covasim''"
  by code_simp

lemma wf_store_plain: "wf_store store_plain"
  by (simp add: wf_store_def plain_defs option_keys_def)

lemma init_plain: "Options_init host_plain = Inr store_plain"
  by (simp add: Options_init_def set_default_options_def plain_defs
      env_float_def env_int_def env_str_def trunc_def)

lemma init_show0: "Options_init host_show0 = Inr store_show0"
  by (simp add: Options_init_def set_default_options_def host_show0_def host_plain_def store_show0_def
      plain_options_def env_float_def env_int_def env_str_def trunc_def int_of_str_def is_space_def
      py_nat_def is_digit_def digit_val_def)


lemma set_precision64: "set_opts host_plain None PNone [(''precision'', PInt 64)] store_plain = (None, store_precision64)"
  by (simp add: eval_defs plain_defs store_precision64_def)

section \<open>The captured defaults\<close>

text \<open>
  C1 (the code departs from it): the claim is that no sequence of \<^verbatim>\<open>set\<close> calls changes
  \<^verbatim>\<open>orig_options\<close>. In a process started with \<^verbatim>\<open>COVASIM_SHOW=0\<close> the captured default of
  \<^verbatim>\<open>show\<close> is \<open>0\<close>; \<^verbatim>\<open>set('defaults')\<close> binds \<^verbatim>\<open>kwargs\<close> to \<^verbatim>\<open>orig_options\<close> itself, the
  expansion of \<^verbatim>\<open>interactive\<close> writes \<^verbatim>\<open>show = True\<close> through that reference, and a later
  \<^verbatim>\<open>set('show', 'default')\<close> stores \<^verbatim>\<open>True\<close>, not the captured \<open>0\<close>.
\<close>

theorem defaults_overwrites_captured_show:
  "Options_init host_show0 = Inr store_show0 \<and>
   get_default store_show0 ''show'' = Inr (PInt 0) \<and>
   fst (set_opts host_show0 (Some ''defaults'') PNone [] store_show0) = None \<and>
   get_default (snd (set_opts host_show0 (Some ''defaults'') PNone [] store_show0)) ''show'' = Inr (PBool True) \<and>
   get_opt (snd (set_opts host_show0 (Some ''show'') (PStr ''default'') []
      (snd (set_opts host_show0 (Some ''defaults'') PNone [] store_show0)))) ''show'' = PBool True"
proof -
  have a: "set_opts host_show0 (Some ''defaults'') PNone [] store_show0 =
     (None, \<lparr>options = AList.update ''close'' (PBool False) (AList.update ''show'' (PBool True) plain_options),
       orig_options = AList.update ''close'' (PBool False) (AList.update ''show'' (PBool True) plain_options),
       trace = [LoadFonts, SwitchBackend (PStr ''TkAgg''), StyleUse ''default'',
          RcSet ''figure.dpi'' (PInt 100), RcSet ''font.size'' (PInt 10),
          RcSet ''font.family'' (PStr ''Rosario''), ReloadNumba]\<rparr>)"
    by (simp add: eval_defs plain_defs store_show0_def host_show0_def lower_covasim)
  show ?thesis
    unfolding a
    by (simp add: init_show0) (simp add: eval_defs plain_defs store_show0_def host_show0_def lower_def)
qed

section \<open>Invalid style names\<close>

text \<open>
  C3 (amended): for a style name \<open>s\<close> that is not empty, not the word \<^verbatim>\<open>default\<close>, not
  \<^verbatim>\<open>covasim\<close> in any letter case and not among the library's style names, \<^verbatim>\<open>set(style=s)\<close>
  raises the style error whose message enumerates the valid names; the loop has stored \<open>s\<close>
  before the check, so afterwards \<^verbatim>\<open>get('style')\<close> returns \<open>s\<close>, and nothing else in the store
  has changed.
\<close>

theorem invalid_style_stored:
  assumes "wf_store st" and "s \<noteq> []" and "s \<noteq> ''default''"
    and "lower s \<noteq> ''covasim''" and "s \<notin> set (style_available h)"
  shows "set_opts h None v [(''style'', PStr s)] st =
           (Some (ValueError (style_errormsg h s)),
            st\<lparr>options := AList.update ''style'' (PStr s) (options st)\<rparr>) \<and>
         get_opt (snd (set_opts h None v [(''style'', PStr s)] st)) ''style'' = PStr s"
proof -
  have mem: "''style'' \<in> set (map fst (options st))"
    using assms(1) by (simp add: wf_store_def option_keys_def)
  have it: "set_item h (''style'', PStr s) st =
      (Some (ValueError (style_errormsg h s)), st\<lparr>options := AList.update ''style'' (PStr s) (options st)\<rparr>, False)"
    using mem assms(2-5)
    by (simp add: set_item_def resolve_value_def is_default_def matplotlib_keys_def numba_keys_def
        set_matplotlib_global_def)
  have call: "set_opts h None v [(''style'', PStr s)] st =
           (Some (ValueError (style_errormsg h s)),
            st\<lparr>options := AList.update ''style'' (PStr s) (options st)\<rparr>)"
    by (simp add: set_opts_def resolve_kwargs_def handle_interactive_def it)
  show ?thesis
    by (simp add: call get_opt_def update_conv')
qed

theorem invalid_style_stored_witness:
  "get_opt (snd (set_opts host_plain None PNone [(''style'', PStr ''nope'')] store_plain)) ''style'' = PStr ''nope'' \<and>
   fst (set_opts host_plain None PNone [(''style'', PStr ''nope'')] store_plain) =
     Some (ValueError (style_errormsg host_plain ''nope''))"
proof -
  have a: "''nope'' \<notin> set (style_available host_plain)"
    by (simp add: host_plain_def)
  have l: "lower ''nope'' \<noteq> ''covasim''"
    by (simp add: lower_nope)
  have t: "set_opts host_plain None PNone [(''style'', PStr ''nope'')] store_plain =
           (Some (ValueError (style_errormsg host_plain ''nope'')),
            store_plain\<lparr>options := AList.update ''style'' (PStr ''nope'') (options store_plain)\<rparr>) \<and>
         get_opt (snd (set_opts host_plain None PNone [(''style'', PStr ''nope'')] store_plain)) ''style'' = PStr ''nope''"
    by (rule invalid_style_stored [OF wf_store_plain _ _ l a]) simp_all
  show ?thesis
  proof (intro conjI)
    show "get_opt (snd (set_opts host_plain None PNone [(''style'', PStr ''nope'')] store_plain)) ''style'' = PStr ''nope''"
      by (rule conjunct2 [OF t])
    show "fst (set_opts host_plain None PNone [(''style'', PStr ''nope'')] store_plain) =
        Some (ValueError (style_errormsg host_plain ''nope''))"
      by (simp add: conjunct1 [OF t])
  qed
qed

text \<open>
  The claim as stated fails: the failed call leaves \<^verbatim>\<open>'nope'\<close> where \<^verbatim>\<open>'covasim'\<close> was; and
  the empty name and the name \<^verbatim>\<open>'default'\<close>, neither of them \<^verbatim>\<open>covasim\<close> nor a library style,
  raise nothing.
\<close>

theorem failed_style_counterexample:
  "lower ''nope'' \<noteq> ''covasim'' \<and> ''nope'' \<notin> set (style_available host_plain) \<and>
   fst (set_opts host_plain None PNone [(''style'', PStr ''nope'')] store_plain) =
     Some (ValueError (style_errormsg host_plain ''nope'')) \<and>
   get_opt store_plain ''style'' = PStr ''covasim'' \<and>
   get_opt (snd (set_opts host_plain None PNone [(''style'', PStr ''nope'')] store_plain)) ''style'' = PStr ''nope'' \<and>
   lower '''' \<noteq> ''covasim'' \<and> '''' \<notin> set (style_available host_plain) \<and>
   fst (set_opts host_plain None PNone [(''style'', PStr '''')] store_plain) = None \<and>
   lower ''default'' \<noteq> ''covasim'' \<and> ''default'' \<notin> set (style_available host_plain) \<and>
   fst (set_opts host_plain None PNone [(''style'', PStr ''default'')] store_plain) = None"
proof -
  have l: "lower ''default'' \<noteq> ''covasim''"
    by code_simp
  show ?thesis
    by (simp add: eval_defs plain_defs lower_nope lower_covasim l) (simp add: lower_def)
qed

section \<open>The style branch of the plotting side effect\<close>

text \<open>
  C4 (amended): \<^verbatim>\<open>set_matplotlib_global('style', None)\<close> makes no call into the plotting
  library at all, because the guard on falsy values comes first; a name equal to
  \<^verbatim>\<open>covasim\<close> up to letter case resets the library to its baseline style.
\<close>

theorem style_none_skipped:
  "set_matplotlib_global h ''style'' PNone af = Inr [] \<and>
   (lower s = ''covasim'' \<longrightarrow> set_matplotlib_global h ''style'' (PStr s) af = Inr [StyleUse ''default''])"
  by (auto simp: set_matplotlib_global_def lower_def)

theorem style_none_skipped_witness:
  "set_matplotlib_global host_plain ''style'' (PStr ''CovaSim'') None = Inr [StyleUse ''default'']"
  using style_none_skipped [of host_plain None "''CovaSim''"] by (simp add: lower_CovaSim)

text \<open>The claim as stated fails: with \<^verbatim>\<open>None\<close> the baseline style is not requested.\<close>

theorem style_none_counterexample:
  "set_matplotlib_global host_plain ''style'' PNone None = Inr [] \<and>
   set_matplotlib_global host_plain ''style'' PNone None \<noteq> Inr [StyleUse ''default'']"
  by (simp add: set_matplotlib_global_def)

section \<open>Unrecognized keys\<close>

text \<open>
  C9 (amended): for every key string \<open>k\<close> that is not a recognized option name, is not one of
  the sentinels \<^verbatim>\<open>default\<close> and \<^verbatim>\<open>defaults\<close> and does not contain \<^verbatim>\<open>jupyter\<close> in any letter case,
  and for every value \<open>v\<close>, \<^verbatim>\<open>set(k, v)\<close> raises the key error whose message lists all valid
  keys, and the store is left exactly as it was: no option changes and no side effect occurs.
\<close>

theorem unknown_key_rejected:
  assumes "wf_store st" and "k \<notin> set option_keys"
    and "k \<noteq> ''default''" and "k \<noteq> ''defaults''" and "\<not> contains (lower k) ''jupyter''"
  shows "set_opts h (Some k) v [] st = (Some (KeyNotFoundError (key_errormsg k option_keys)), st)"
proof -
  from assms(2) have ni: "k \<noteq> ''interactive''"
    by (auto simp: option_keys_def)
  have rk: "resolve_kwargs h (Some k) v [] = (KwLocal [(k, v)], [])"
    using assms(3-5) by (simp add: resolve_kwargs_def mergedicts_def dict_update_def)
  have hi: "handle_interactive st (KwLocal [(k, v)]) = (None, st, KwLocal [(k, v)])"
    using ni by (simp add: handle_interactive_def)
  have it: "set_item h (k, v) st = (Some (KeyNotFoundError (key_errormsg k option_keys)), st, False)"
    using assms(1,2) by (simp add: set_item_def wf_store_def)
  show ?thesis
    by (simp add: set_opts_def rk hi it)
qed

theorem unknown_key_rejected_witness:
  "set_opts host_plain (Some ''colour'') (PInt 1) [] store_plain =
     (Some (KeyNotFoundError (key_errormsg ''colour'' option_keys)), store_plain)"
proof -
  have n: "''colour'' \<notin> set option_keys"
    by (simp add: option_keys_def)
  have j: "\<not> contains (lower ''colour'') ''jupyter''"
    by code_simp
  show ?thesis
    using unknown_key_rejected [OF wf_store_plain n _ _ j, of host_plain "PInt 1"] by simp
qed

text \<open>
  The claim as stated fails at the sentinel keys, which are not option names: \<^verbatim>\<open>set('jupyter', 1)\<close>
  returns normally and turns \<^verbatim>\<open>show\<close> off, and \<^verbatim>\<open>set('defaults', 1)\<close> after
  \<^verbatim>\<open>set(precision=64)\<close> returns normally and puts \<^verbatim>\<open>precision\<close> back to 32.
\<close>

theorem sentinel_keys_counterexample:
  "''jupyter'' \<notin> set option_keys \<and>
   fst (set_opts host_plain (Some ''jupyter'') (PInt 1) [] store_plain) = None \<and>
   get_opt store_plain ''show'' = PInt 1 \<and>
   get_opt (snd (set_opts host_plain (Some ''jupyter'') (PInt 1) [] store_plain)) ''show'' = PBool False \<and>
   ''defaults'' \<notin> set option_keys \<and>
   get_opt (snd (set_opts host_plain None PNone [(''precision'', PInt 64)] store_plain)) ''precision'' = PInt 64 \<and>
   fst (set_opts host_plain (Some ''defaults'') (PInt 1) []
      (snd (set_opts host_plain None PNone [(''precision'', PInt 64)] store_plain))) = None \<and>
   get_opt (snd (set_opts host_plain (Some ''defaults'') (PInt 1) []
      (snd (set_opts host_plain None PNone [(''precision'', PInt 64)] store_plain)))) ''precision'' = PInt 32"
proof -
  have p: "set_opts host_plain None PNone [(''precision'', PInt 64)] store_plain =
     (None, \<lparr>options = AList.update ''precision'' (PInt 64) plain_options,
             orig_options = plain_options, trace = [LoadFonts, ReloadNumba]\<rparr>)"
    by (simp add: eval_defs plain_defs)
  have j: "fst (set_opts host_plain (Some ''jupyter'') (PInt 1) [] store_plain) = None \<and>
      get_opt (snd (set_opts host_plain (Some ''jupyter'') (PInt 1) [] store_plain)) ''show'' = PBool False"
    by (simp add: eval_defs plain_defs lower_jupyter)
  have d: "fst (set_opts host_plain (Some ''defaults'') (PInt 1) []
         \<lparr>options = AList.update ''precision'' (PInt 64) plain_options,
          orig_options = plain_options, trace = [LoadFonts, ReloadNumba]\<rparr>) = None \<and>
      get_opt (snd (set_opts host_plain (Some ''defaults'') (PInt 1) []
         \<lparr>options = AList.update ''precision'' (PInt 64) plain_options,
          orig_options = plain_options, trace = [LoadFonts, ReloadNumba]\<rparr>)) ''precision'' = PInt 32"
    by (simp add: eval_defs plain_defs lower_covasim)
  have s: "get_opt store_plain ''show'' = PInt 1"
    by (simp add: get_opt_def plain_defs)
  have k: "''jupyter'' \<notin> set option_keys \<and> ''defaults'' \<notin> set option_keys"
    by (simp add: option_keys_def)
  show ?thesis
    unfolding p using j d s k by (simp add: get_opt_def plain_options_def)
qed

section \<open>Calls as a whole\<close>

lemma distinct_dict_update:
  "distinct (map fst d) \<Longrightarrow> distinct (map fst (dict_update d e))"
  unfolding dict_update_def
  by (induction e arbitrary: d) (simp_all add: distinct_update)

lemma distinct_mergedicts: "distinct (map fst (mergedicts a b))"
  by (simp add: mergedicts_def distinct_dict_update)

lemma kw_read_trace [simp]: "kw_read (st\<lparr>trace := t\<rparr>) r = kw_read st r"
  by (cases r) simp_all

lemma handle_interactive_total:
  assumes "wf_store st"
  shows "\<exists>st1 r1. handle_interactive st r = (None, st1, r1) \<and> options st1 = options st \<and>
           trace st1 = trace st \<and> map fst (orig_options st1) = option_keys \<and>
           (\<forall>d. r = KwLocal d \<longrightarrow> st1 = st) \<and>
           (distinct (map fst (kw_read st r)) \<longrightarrow> distinct (map fst (kw_read st1 r1)))"
proof (cases "map_of (kw_read st r) ''interactive''")
  case None
  then show ?thesis
    using assms by (simp add: handle_interactive_absent wf_store_def)
next
  case (Some iv)
  from wf_lookup(2) [OF assms, of "''interactive''"] obtain di
    where di: "map_of (orig_options st) ''interactive'' = Some di"
    by (auto simp: option_keys_def)
  from wf_lookup(2) [OF assms, of "''backend''"] obtain b
    where b: "get_default st ''backend'' = Inr b"
    by (auto simp: option_keys_def get_default_def)
  have "\<exists>i. resolve_value st ''interactive'' iv = Inr i"
    using di by (simp add: resolve_value_def get_default_def)
  then obtain i where i: "resolve_value st ''interactive'' iv = Inr i"
    by blast
  obtain eo st1 r1 where hi: "handle_interactive st r = (eo, st1, r1)"
    by (cases "handle_interactive st r") auto
  note p = handle_interactive_present [OF Some i b hi]
  have keys: "map fst (orig_options st1) = option_keys"
  proof (cases r)
    case KwOrig
    with p(5) have "r1 = KwOrig" by simp
    with p(2) KwOrig have "orig_options st1 =
      (if truthy i
       then AList.update ''backend'' b (AList.update ''close'' (PBool False)
              (AList.update ''show'' (PBool True) (orig_options st)))
       else AList.update ''backend'' (PStr ''agg'') (AList.update ''show'' (PBool False) (orig_options st)))"
      by simp
    moreover have "map fst (orig_options st) = option_keys"
      using assms by (simp add: wf_store_def)
    ultimately show ?thesis
      by (simp add: update_keys option_keys_def)
  next
    case (KwLocal d)
    with p(6) assms show ?thesis by (simp add: wf_store_def)
  qed
  have dist: "distinct (map fst (kw_read st r)) \<longrightarrow> distinct (map fst (kw_read st1 r1))"
    by (simp add: p(2) distinct_update)
  show ?thesis
    using hi p(1,3,4,6) keys dist by auto
qed


lemma set_opts_split:
  assumes "resolve_kwargs h key value kwargs = (r, evs)"
    and "handle_interactive st r = (None, st1, r1)"
    and "set_loop h (kw_read st1 r1) (st1\<lparr>trace := trace st @ evs\<rparr>) False = (eo, st2, rr)"
  shows "set_opts h key value kwargs st = (eo, if eo = None \<and> rr then reload_numba st2 else st2)"
  using assms
  by (cases eo) (simp_all add: set_opts_def handle_interactive_trace)

lemma resolved_overrides_eq:
  assumes "resolve_kwargs h key value kwargs = (r, evs)"
    and "handle_interactive st r = (eo, st1, r1)"
  shows "resolved_overrides h key value kwargs st = kw_read st1 r1"
  using assms by (simp add: resolved_overrides_def)




lemma set_loop_append:
  "set_loop h (xs @ ys) st r =
     (case set_loop h xs st r of
        (None, st1, r1) \<Rightarrow> set_loop h ys st1 r1
      | (Some e, st1, r1) \<Rightarrow> (Some e, st1, r1))"
proof (induction xs arbitrary: st r)
  case Nil
  then show ?case by simp
next
  case (Cons kv xs)
  obtain e1 st1 n where it: "set_item h kv st = (e1, st1, n)"
    by (cases "set_item h kv st") auto
  show ?case
    by (cases e1) (simp_all add: it Cons.IH)
qed

lemma wf_store_trace [simp]: "wf_store (st\<lparr>trace := t\<rparr>) = wf_store st"
  by (simp add: wf_store_def)

lemma requested_distinct:
  assumes "wf_store st" and "distinct (map fst kwargs)"
    and "resolve_kwargs h key value kwargs = (r, evs)"
  shows "distinct (map fst (kw_read st r))"
  using assms
  by (auto simp: resolve_kwargs_def distinct_mergedicts wf_store_def option_keys_distinct
      split: option.splits if_splits)

text \<open>Under a well-formed store the expansion cannot raise; the call is then resolution,
  expansion and loop in sequence.\<close>

lemma set_opts_stages:
  assumes "wf_store st" and "distinct (map fst kwargs)"
  obtains eo st2 rr where
    "set_loop h (resolved_overrides h key value kwargs st) (loop_entry h key value kwargs st) False = (eo, st2, rr)"
    and "set_opts h key value kwargs st = (eo, if eo = None \<and> rr then reload_numba st2 else st2)"
    and "distinct (map fst (resolved_overrides h key value kwargs st))"
    and "options (loop_entry h key value kwargs st) = options st"
    and "map fst (orig_options (loop_entry h key value kwargs st)) = option_keys"
proof -
  obtain r evs where rk: "resolve_kwargs h key value kwargs = (r, evs)"
    by (cases "resolve_kwargs h key value kwargs") auto
  from handle_interactive_total [OF assms(1), of r] obtain st1 r1 where
    hi: "handle_interactive st r = (None, st1, r1)" and o: "options st1 = options st"
    and k: "map fst (orig_options st1) = option_keys"
    and d: "distinct (map fst (kw_read st r)) \<longrightarrow> distinct (map fst (kw_read st1 r1))"
    by blast
  have ro: "resolved_overrides h key value kwargs st = kw_read st1 r1"
    by (rule resolved_overrides_eq [OF rk hi])
  have le: "loop_entry h key value kwargs st = st1\<lparr>trace := trace st @ evs\<rparr>"
    by (simp add: loop_entry_def rk handle_interactive_trace hi)
  obtain eo st2 rr where
    lp: "set_loop h (kw_read st1 r1) (st1\<lparr>trace := trace st @ evs\<rparr>) False = (eo, st2, rr)"
    by (cases "set_loop h (kw_read st1 r1) (st1\<lparr>trace := trace st @ evs\<rparr>) False") auto
  show thesis
  proof (rule that [of eo st2 rr])
    show "set_loop h (resolved_overrides h key value kwargs st) (loop_entry h key value kwargs st) False = (eo, st2, rr)"
      by (simp add: ro le lp)
    show "set_opts h key value kwargs st = (eo, if eo = None \<and> rr then reload_numba st2 else st2)"
      by (rule set_opts_split [OF rk hi lp])
    show "distinct (map fst (resolved_overrides h key value kwargs st))"
      using d requested_distinct [OF assms rk] by (simp add: ro)
    show "options (loop_entry h key value kwargs st) = options st"
      by (simp add: le o)
    show "map fst (orig_options (loop_entry h key value kwargs st)) = option_keys"
      by (simp add: le k)
  qed
qed

section \<open>The reload of the numerical modules\<close>




section \<open>Errors in the middle of the loop\<close>

text \<open>
  C5: a multi-key \<^verbatim>\<open>set\<close> call is not transactional. When the overrides the loop iterates over
  are \<open>pre\<close>, then the pair \<open>(k, v)\<close>, then \<open>post\<close>, the pairs of \<open>pre\<close> go through and the pair
  \<open>(k, v)\<close> raises, the call raises that error, and in the store it leaves behind every pair of
  \<open>pre\<close> is committed: the option holds the pair's value, or the captured default where the
  value was \<^verbatim>\<open>None\<close> or \<^verbatim>\<open>'default'\<close>.
\<close>

theorem earlier_pairs_committed:
  assumes wf: "wf_store st" and dist: "distinct (map fst kwargs)"
    and split: "resolved_overrides h key value kwargs st = pre @ (k, v) # post"
    and pre_ok: "set_loop h pre (loop_entry h key value kwargs st) False = (None, st_mid, r)"
    and fail: "set_item h (k, v) st_mid = (Some e, st_err, n)"
  shows "set_opts h key value kwargs st = (Some e, st_err) \<and>
         (\<forall>(k', v') \<in> set pre. resolve_value st_err k' v' = Inr (get_opt st_err k'))"
proof -
  from set_opts_stages [OF wf dist, of h key "value"] obtain eo st2 rr where
    lp: "set_loop h (resolved_overrides h key value kwargs st) (loop_entry h key value kwargs st) False = (eo, st2, rr)"
    and so: "set_opts h key value kwargs st = (eo, if eo = None \<and> rr then reload_numba st2 else st2)"
    and d: "distinct (map fst (resolved_overrides h key value kwargs st))"
    by blast
  have "set_loop h (pre @ (k, v) # post) (loop_entry h key value kwargs st) False = (Some e, st_err, r \<or> n)"
    by (simp add: set_loop_append pre_ok fail)
  with lp split have eo: "eo = Some e" "st2 = st_err"
    by simp_all
  have call: "set_opts h key value kwargs st = (Some e, st_err)"
    using so eo by simp
  from d split have dpre: "distinct (map fst pre)" and kpre: "k \<notin> fst ` set pre"
    by auto
  note ok = set_loop_ok [OF pre_ok dpre]
  have orig: "orig_options st_err = orig_options (loop_entry h key value kwargs st)"
    using set_loop_frame [OF pre_ok] set_item_frame(1) [OF fail] by simp
  have committed: "resolve_value st_err k' v' = Inr (get_opt st_err k')" if m: "(k', v') \<in> set pre" for k' v'
  proof -
    from ok m obtain w where w: "resolve_value (loop_entry h key value kwargs st) k' v' = Inr w"
      "map_of (options st_mid) k' = Some w"
      by blast
    from m kpre have "k' \<noteq> k" by force
    from set_item_other [OF fail this] w(2) have "get_opt st_err k' = w"
      by (simp add: get_opt_def)
    with w(1) resolve_value_orig [OF orig] show ?thesis by simp
  qed
  show ?thesis
    using call committed by auto
qed

theorem earlier_pairs_committed_witness:
  "fst (set_opts host_plain None PNone [(''precision'', PInt 64), (''dpi'', PNone), (''zzz'', PInt 1)] store_plain) =
     Some (KeyNotFoundError (key_errormsg ''zzz'' option_keys)) \<and>
   get_opt (snd (set_opts host_plain None PNone [(''precision'', PInt 64), (''dpi'', PNone), (''zzz'', PInt 1)] store_plain))
     ''precision'' = PInt 64"
proof -
  let ?kw = "[(''precision'', PInt 64), (''dpi'', PNone), (''zzz'', PInt 1)]"
  let ?mid = "\<lparr>options = AList.update ''precision'' (PInt 64) plain_options, orig_options = plain_options,
               trace = [LoadFonts, RcSet ''figure.dpi'' (PInt 100)]\<rparr>"
  have d: "distinct (map fst ?kw)"
    by simp
  have s: "resolved_overrides host_plain None PNone ?kw store_plain =
      [(''precision'', PInt 64), (''dpi'', PNone)] @ (''zzz'', PInt 1) # []"
    by (simp add: resolved_overrides_def resolve_kwargs_def handle_interactive_def)
  have e: "loop_entry host_plain None PNone ?kw store_plain = store_plain"
    by (simp add: loop_entry_def resolve_kwargs_def handle_interactive_def)
  have p: "set_loop host_plain [(''precision'', PInt 64), (''dpi'', PNone)]
      (loop_entry host_plain None PNone ?kw store_plain) False = (None, ?mid, True)"
    unfolding e by (simp add: eval_defs plain_defs)
  have k: "map fst plain_options = option_keys"
    by (simp add: plain_options_def option_keys_def)
  have f: "set_item host_plain (''zzz'', PInt 1) ?mid =
      (Some (KeyNotFoundError (key_errormsg ''zzz'' option_keys)), ?mid, False)"
    by (simp add: set_item_def k update_keys) (simp add: option_keys_def)
  note t = earlier_pairs_committed [OF wf_store_plain d s p f]
  from t have c: "set_opts host_plain None PNone ?kw store_plain =
      (Some (KeyNotFoundError (key_errormsg ''zzz'' option_keys)), ?mid)"
    by (rule conjunct1)
  from t have "resolve_value ?mid ''precision'' (PInt 64) = Inr (get_opt ?mid ''precision'')"
    by simp
  then have "get_opt ?mid ''precision'' = PInt 64"
    by (simp add: resolve_value_def is_default_def)
  with c show ?thesis by simp
qed

section \<open>What a call that returns normally has stored\<close>

lemma handle_interactive_orig_ref:
  "handle_interactive st KwOrig = (eo, st1, r1) \<Longrightarrow> r1 = KwOrig"
  by (auto simp: handle_interactive_def split: option.splits sum.splits if_splits)

lemma handle_interactive_local_ref:
  "handle_interactive st (KwLocal d) = (eo, st1, r1) \<Longrightarrow> st1 = st"
  by (auto simp: handle_interactive_def split: option.splits sum.splits if_splits)

lemma loop_entry_orig:
  assumes "resolve_kwargs h key value kwargs = (r, evs)"
  shows "orig_options (loop_entry h key value kwargs st) =
           (if r = KwOrig then resolved_overrides h key value kwargs st else orig_options st)"
proof -
  obtain eo st1 r1 where hi: "handle_interactive st r = (eo, st1, r1)"
    by (cases "handle_interactive st r") auto
  have le: "orig_options (loop_entry h key value kwargs st) = orig_options st1"
    by (simp add: loop_entry_def assms handle_interactive_trace hi)
  have ro: "resolved_overrides h key value kwargs st = kw_read st1 r1"
    by (rule resolved_overrides_eq [OF assms hi])
  show ?thesis
  proof (cases r)
    case KwOrig
    with hi have "r1 = KwOrig" by (simp add: handle_interactive_orig_ref)
    with KwOrig le ro show ?thesis by simp
  next
    case (KwLocal d)
    with hi have "st1 = st" by (simp add: handle_interactive_local_ref)
    with KwLocal le show ?thesis by simp
  qed
qed

lemma set_opts_ok_stored:
  assumes wf: "wf_store st" and dist: "distinct (map fst kwargs)"
    and ok: "set_opts h key value kwargs st = (None, st')"
  shows "map_of (resolved_overrides h key value kwargs st) k = Some v \<Longrightarrow>
           resolve_value (loop_entry h key value kwargs st) k v = Inr (get_opt st' k)"
    and "map_of (resolved_overrides h key value kwargs st) k = None \<Longrightarrow>
           get_opt st' k = get_opt st k"
proof -
  from set_opts_stages [OF wf dist, of h key "value"] obtain eo st2 rr where
    lp: "set_loop h (resolved_overrides h key value kwargs st) (loop_entry h key value kwargs st) False = (eo, st2, rr)"
    and so: "set_opts h key value kwargs st = (eo, if eo = None \<and> rr then reload_numba st2 else st2)"
    and d: "distinct (map fst (resolved_overrides h key value kwargs st))"
    and o: "options (loop_entry h key value kwargs st) = options st"
    by blast
  from so ok have eo: "eo = None" and st': "st' = (if rr then reload_numba st2 else st2)"
    by simp_all
  have opts: "options st' = options st2"
    by (simp add: st' reload_numba_def)
  {
    assume "map_of (resolved_overrides h key value kwargs st) k = Some v"
    then have "(k, v) \<in> set (resolved_overrides h key value kwargs st)"
      by (rule map_of_SomeD)
    with set_loop_ok [OF lp [unfolded eo] d] obtain w where
      "resolve_value (loop_entry h key value kwargs st) k v = Inr w" "map_of (options st2) k = Some w"
      by blast
    then show "resolve_value (loop_entry h key value kwargs st) k v = Inr (get_opt st' k)"
      by (simp add: get_opt_def opts)
  }
  {
    assume "map_of (resolved_overrides h key value kwargs st) k = None"
    then have "k \<notin> fst ` set (resolved_overrides h key value kwargs st)"
      by (simp add: map_of_eq_None_iff)
    from set_loop_other [OF lp this] show "get_opt st' k = get_opt st k"
      by (simp add: get_opt_def opts o)
  }
qed

lemma resolve_value_plain: "\<not> is_default v \<Longrightarrow> resolve_value st k v = Inr v"
  by (simp add: resolve_value_def)

lemma resolve_value_lookup:
  "map_of (orig_options st) k = Some v \<Longrightarrow> resolve_value st k v = Inr v"
  by (simp add: resolve_value_def get_default_def)

text \<open>The overrides after the expansion, read off the requested ones.\<close>

lemma resolved_overrides_interactive:
  assumes wf: "wf_store st"
    and req: "map_of (requested_overrides h key value kwargs st) ''interactive'' = Some iv"
    and i: "resolve_value st ''interactive'' iv = Inr i"
    and b: "get_default st ''backend'' = Inr b"
  shows "resolved_overrides h key value kwargs st =
      (if truthy i
       then AList.update ''backend'' b (AList.update ''close'' (PBool False)
              (AList.update ''show'' (PBool True) (requested_overrides h key value kwargs st)))
       else AList.update ''backend'' (PStr ''agg'')
              (AList.update ''show'' (PBool False) (requested_overrides h key value kwargs st)))"
proof -
  obtain r evs where rk: "resolve_kwargs h key value kwargs = (r, evs)"
    by (cases "resolve_kwargs h key value kwargs") auto
  obtain eo st1 r1 where hi: "handle_interactive st r = (eo, st1, r1)"
    by (cases "handle_interactive st r") auto
  have rq: "requested_overrides h key value kwargs st = kw_read st r"
    by (simp add: requested_overrides_def rk)
  from handle_interactive_present(2) [OF req [unfolded rq] i b hi]
  show ?thesis
    by (simp add: resolved_overrides_eq [OF rk hi] rq)
qed

lemma interactive_effect:
  assumes wf: "wf_store st" and dist: "distinct (map fst kwargs)"
    and req: "map_of (requested_overrides h key value kwargs st) ''interactive'' = Some iv"
    and i: "resolve_value st ''interactive'' iv = Inr i"
    and b: "get_default st ''backend'' = Inr b"
    and ok: "set_opts h key value kwargs st = (None, st')"
  shows "truthy i \<Longrightarrow> get_opt st' ''show'' = PBool True"
    and "truthy i \<Longrightarrow> get_opt st' ''close'' = PBool False"
    and "truthy i \<Longrightarrow> get_opt st' ''backend'' = b"
    and "\<not> truthy i \<Longrightarrow> get_opt st' ''show'' = PBool False"
    and "\<not> truthy i \<Longrightarrow> get_opt st' ''backend'' = PStr ''agg''"
    and "\<not> truthy i \<Longrightarrow> map_of (requested_overrides h key value kwargs st) ''close'' = None \<Longrightarrow>
           get_opt st' ''close'' = get_opt st ''close''"
    and "\<not> truthy i \<Longrightarrow> map_of (requested_overrides h key value kwargs st) ''close'' = Some c \<Longrightarrow>
           resolve_value st ''close'' c = Inr (get_opt st' ''close'')"
proof -
  note ro = resolved_overrides_interactive [OF wf req i b]
  note stored = set_opts_ok_stored [OF wf dist ok]
  obtain r evs where rk: "resolve_kwargs h key value kwargs = (r, evs)"
    by (cases "resolve_kwargs h key value kwargs") auto
  note lo = loop_entry_orig [OF rk, of st]
  have plain: "resolve_value (loop_entry h key value kwargs st) k v = Inr w \<Longrightarrow> \<not> is_default v \<Longrightarrow> w = v"
    for k v w
    by (simp add: resolve_value_def)
  {
    assume t: "truthy i"
    have "map_of (resolved_overrides h key value kwargs st) ''show'' = Some (PBool True)"
      by (simp add: ro t update_conv')
    from plain [OF stored(1) [OF this]] show "get_opt st' ''show'' = PBool True"
      by (simp add: is_default_def)
    have "map_of (resolved_overrides h key value kwargs st) ''close'' = Some (PBool False)"
      by (simp add: ro t update_conv')
    from plain [OF stored(1) [OF this]] show "get_opt st' ''close'' = PBool False"
      by (simp add: is_default_def)
    have mb: "map_of (resolved_overrides h key value kwargs st) ''backend'' = Some b"
      by (simp add: ro t update_conv')
    have "map_of (orig_options (loop_entry h key value kwargs st)) ''backend'' = Some b"
      using lo mb b by (auto simp: get_default_def split: option.splits)
    then have "resolve_value (loop_entry h key value kwargs st) ''backend'' b = Inr b"
      by (rule resolve_value_lookup)
    with stored(1) [OF mb] show "get_opt st' ''backend'' = b"
      by simp
  }
  {
    assume f: "\<not> truthy i"
    have "map_of (resolved_overrides h key value kwargs st) ''show'' = Some (PBool False)"
      by (simp add: ro f update_conv')
    from plain [OF stored(1) [OF this]] show "get_opt st' ''show'' = PBool False"
      by (simp add: is_default_def)
    have "map_of (resolved_overrides h key value kwargs st) ''backend'' = Some (PStr ''agg'')"
      by (simp add: ro f update_conv')
    from plain [OF stored(1) [OF this]] show "get_opt st' ''backend'' = PStr ''agg''"
      by (simp add: is_default_def)
    have cl: "map_of (resolved_overrides h key value kwargs st) ''close'' =
        map_of (requested_overrides h key value kwargs st) ''close''"
      by (simp add: ro f update_conv')
    {
      assume "map_of (requested_overrides h key value kwargs st) ''close'' = None"
      with cl stored(2) show "get_opt st' ''close'' = get_opt st ''close''"
        by simp
    }
    {
      assume c: "map_of (requested_overrides h key value kwargs st) ''close'' = Some c"
      have "map_of (orig_options (loop_entry h key value kwargs st)) ''close'' =
          map_of (orig_options st) ''close''"
      proof (cases "r = KwOrig")
        case True
        then have "requested_overrides h key value kwargs st = orig_options st"
          by (simp add: requested_overrides_def rk)
        with lo True cl show ?thesis by simp
      next
        case False
        with lo show ?thesis by simp
      qed
      then have "resolve_value (loop_entry h key value kwargs st) ''close'' c = resolve_value st ''close'' c"
        by (simp add: resolve_value_def get_default_def)
      with stored(1) [of "''close''" c] cl c show "resolve_value st ''close'' c = Inr (get_opt st' ''close'')"
        by simp
    }
  }
qed

section \<open>The convenience key \<^verbatim>\<open>interactive\<close>\<close>



section \<open>Resetting everything\<close>

lemma set_opts_defaults_kwargs:
  "k \<in> {''default'', ''defaults''} \<Longrightarrow> set_opts h (Some k) value kwargs st = set_opts h (Some k) value [] st"
  by (auto simp: set_opts_def resolve_kwargs_def)

text \<open>
  What a reset that returns normally stores, in terms of the defaults as they were before
  the call: every option other than \<^verbatim>\<open>show\<close>, \<^verbatim>\<open>close\<close> and \<^verbatim>\<open>backend\<close> gets its default, and those
  three get what the expansion of \<^verbatim>\<open>interactive\<close> makes of the defaults.
\<close>

lemma defaults_captured_values:
  assumes wf: "wf_store st" and k: "k \<in> {''default'', ''defaults''}"
    and i: "get_default st ''interactive'' = Inr i"
    and ok: "set_opts h (Some k) value kwargs st = (None, st')"
  shows "(\<forall>key \<in> set option_keys - {''show'', ''close'', ''backend''}.
            get_default st key = Inr (get_opt st' key)) \<and>
         (if truthy i
          then get_opt st' ''show'' = PBool True \<and> get_opt st' ''close'' = PBool False \<and>
               get_default st ''backend'' = Inr (get_opt st' ''backend'')
          else get_opt st' ''show'' = PBool False \<and> get_opt st' ''backend'' = PStr ''agg'' \<and>
               get_default st ''close'' = Inr (get_opt st' ''close''))"
proof -
  have "set_opts h (Some k) value kwargs st = set_opts h (Some k) value [] st"
    by (rule set_opts_defaults_kwargs [OF k])
  with ok have ok': "set_opts h (Some k) value [] st = (None, st')"
    by simp
  have rk: "resolve_kwargs h (Some k) value [] = (KwOrig, [])"
    using k by (auto simp: resolve_kwargs_def)
  have rq: "requested_overrides h (Some k) value [] st = orig_options st"
    by (simp add: requested_overrides_def rk)
  from i have im: "map_of (orig_options st) ''interactive'' = Some i"
    by (simp add: get_default_def split: option.splits)
  have req: "map_of (requested_overrides h (Some k) value [] st) ''interactive'' = Some i"
    by (simp add: rq im)
  have ri: "resolve_value st ''interactive'' i = Inr i"
    by (rule resolve_value_lookup [OF im])
  from wf_lookup(2) [OF wf, of "''backend''"] obtain b where bm: "map_of (orig_options st) ''backend'' = Some b"
    by (auto simp: option_keys_def)
  then have b: "get_default st ''backend'' = Inr b"
    by (simp add: get_default_def)
  from wf_lookup(2) [OF wf, of "''close''"] obtain c where cm: "map_of (orig_options st) ''close'' = Some c"
    by (auto simp: option_keys_def)
  have d: "distinct (map fst ([] :: dict))"
    by simp
  note e = interactive_effect [OF wf d req ri b ok']
  note ro = resolved_overrides_interactive [OF wf req ri b]
  note stored = set_opts_ok_stored [OF wf d ok']
  note lo = loop_entry_orig [OF rk, of st]
  have others: "get_default st key = Inr (get_opt st' key)"
    if m: "key \<in> set option_keys - {''show'', ''close'', ''backend''}" for key
  proof -
    from wf_lookup(2) [OF wf, of key] m obtain v where v: "map_of (orig_options st) key = Some v"
      by auto
    have rv: "map_of (resolved_overrides h (Some k) value [] st) key = Some v"
      using m v by (simp add: ro rq update_conv')
    then have "map_of (orig_options (loop_entry h (Some k) value [] st)) key = Some v"
      by (simp add: lo)
    from resolve_value_lookup [OF this] stored(1) [OF rv] have "get_opt st' key = v"
      by simp
    with v show ?thesis
      by (simp add: get_default_def)
  qed
  have special: "if truthy i
          then get_opt st' ''show'' = PBool True \<and> get_opt st' ''close'' = PBool False \<and>
               get_default st ''backend'' = Inr (get_opt st' ''backend'')
          else get_opt st' ''show'' = PBool False \<and> get_opt st' ''backend'' = PStr ''agg'' \<and>
               get_default st ''close'' = Inr (get_opt st' ''close'')"
  proof (cases "truthy i")
    case True
    with e(1-3) b show ?thesis by simp
  next
    case False
    have "map_of (requested_overrides h (Some k) value [] st) ''close'' = Some c"
      by (simp add: rq cm)
    from e(7) [OF False this] resolve_value_lookup [OF cm] have "get_opt st' ''close'' = c"
      by simp
    with False e(4,5) cm show ?thesis
      by (simp add: get_default_def)
  qed
  show ?thesis
    using others special by blast
qed




section \<open>The notebook preset\<close>

lemma map_of_dict_update:
  "distinct (map fst e) \<Longrightarrow>
     map_of (dict_update d e) k = (case map_of e k of None \<Rightarrow> map_of d k | Some v \<Rightarrow> Some v)"
  unfolding dict_update_def
proof (induction e arbitrary: d)
  case Nil
  then show ?case by simp
next
  case (Cons kv e)
  obtain a b where kv: "kv = (a, b)" by (cases kv)
  from Cons.prems kv have na: "map_of e a = None" and de: "distinct (map fst e)"
    by (auto simp: map_of_eq_None_iff)
  show ?case
    using Cons.IH [OF de, of "AList.update a b d"] na
    by (auto simp: kv update_conv' split: option.splits)
qed

lemma map_of_mergedicts:
  "distinct (map fst a) \<Longrightarrow> distinct (map fst b) \<Longrightarrow>
     map_of (mergedicts a b) k = (case map_of b k of None \<Rightarrow> map_of a k | Some v \<Rightarrow> Some v)"
  by (simp add: mergedicts_def map_of_dict_update distinct_dict_update split: option.splits)

lemma sentinel_not_jupyter:
  "\<not> contains (lower ''default'') ''jupyter''" "\<not> contains (lower ''defaults'') ''jupyter''"
  by code_simp+

lemma resolve_kwargs_jupyter:
  assumes "contains (lower k) ''jupyter''"
  shows "resolve_kwargs h (Some k) v kwargs = (KwLocal (mergedicts jupyter_kwargs kwargs), jupyter_formats h)"
proof -
  from assms sentinel_not_jupyter have "k \<noteq> ''default''" "k \<noteq> ''defaults''"
    by auto
  with assms show ?thesis
    by (simp add: resolve_kwargs_def)
qed

text \<open>The outcome of a call does not depend on whether the notebook display hook works.\<close>

lemma rc_assign_inline: "rc_assign (h\<lparr>inline_available := b\<rparr>) = rc_assign h"
  by (simp add: fun_eq_iff rc_assign_def)

lemma style_errormsg_inline: "style_errormsg (h\<lparr>inline_available := b\<rparr>) = style_errormsg h"
  by (simp add: fun_eq_iff style_errormsg_def)

lemma smg_inline: "set_matplotlib_global (h\<lparr>inline_available := b\<rparr>) = set_matplotlib_global h"
  by (auto simp: fun_eq_iff set_matplotlib_global_def rc_assign_inline style_errormsg_inline
      split: pyval.splits option.splits)

lemma set_item_inline:
  assumes "options st' = options st" and "orig_options st' = orig_options st"
  shows "outcome (set_item (h\<lparr>inline_available := b\<rparr>) kv st') = outcome (set_item h kv st)"
  using assms
  by (cases kv)
    (auto simp: outcome_def set_item_def smg_inline resolve_value_def get_default_def Let_def
      split: sum.splits option.splits)

lemma set_loop_inline:
  "options st' = options st \<Longrightarrow> orig_options st' = orig_options st \<Longrightarrow>
     outcome (set_loop (h\<lparr>inline_available := b\<rparr>) kvs st' r) = outcome (set_loop h kvs st r)"
proof (induction kvs arbitrary: st st' r)
  case Nil
  then show ?case by (simp add: outcome_def)
next
  case (Cons kv kvs)
  obtain e1 s1 n1 where x: "set_item h kv st = (e1, s1, n1)"
    by (cases "set_item h kv st") auto
  obtain e2 s2 n2 where y: "set_item (h\<lparr>inline_available := b\<rparr>) kv st' = (e2, s2, n2)"
    by (cases "set_item (h\<lparr>inline_available := b\<rparr>) kv st'") auto
  from set_item_inline [OF Cons.prems, where h = h and b = b and kv = kv] x y
  have eq: "e2 = e1" "n2 = n1" "options s2 = options s1" "orig_options s2 = orig_options s1"
    by (simp_all add: outcome_def)
  show ?case
  proof (cases e1)
    case None
    with x y eq Cons.IH [OF eq(3,4)] show ?thesis by simp
  next
    case (Some e)
    with x y eq show ?thesis by (simp add: outcome_def)
  qed
qed

lemma set_opts_inline:
  "fst (set_opts (h\<lparr>inline_available := b\<rparr>) key value kwargs st) = fst (set_opts h key value kwargs st) \<and>
   options (snd (set_opts (h\<lparr>inline_available := b\<rparr>) key value kwargs st)) =
     options (snd (set_opts h key value kwargs st))"
proof -
  obtain r evs where rk: "resolve_kwargs h key value kwargs = (r, evs)"
    by (cases "resolve_kwargs h key value kwargs") auto
  obtain evs' where rk': "resolve_kwargs (h\<lparr>inline_available := b\<rparr>) key value kwargs = (r, evs')"
    using rk by (auto simp: resolve_kwargs_def split: option.splits if_splits)
  obtain e1 st1 r1 where hi: "handle_interactive st r = (e1, st1, r1)"
    by (cases "handle_interactive st r") auto
  show ?thesis
  proof (cases e1)
    case (Some e)
    then show ?thesis
      by (simp add: set_opts_def rk rk' handle_interactive_trace hi)
  next
    case None
    let ?a = "set_loop h (kw_read st1 r1) (st1\<lparr>trace := trace st @ evs\<rparr>) False"
    let ?b = "set_loop (h\<lparr>inline_available := b\<rparr>) (kw_read st1 r1) (st1\<lparr>trace := trace st @ evs'\<rparr>) False"
    have sim: "outcome ?b = outcome ?a"
      by (rule set_loop_inline) simp_all
    obtain ea sa na where x: "?a = (ea, sa, na)"
      by (cases ?a) auto
    obtain eb sb nb where y: "?b = (eb, sb, nb)"
      by (cases ?b) auto
    from sim x y have eq: "eb = ea" "nb = na" "options sb = options sa"
      by (simp_all add: outcome_def)
    from set_opts_split [OF rk hi [unfolded None] x] set_opts_split [OF rk' hi [unfolded None] y] eq
    show ?thesis
      by (simp add: reload_numba_def)
  qed
qed

lemma jupyter_call:
  assumes wf: "wf_store st" and j: "contains (lower k) ''jupyter''"
    and acc: "rc_accepts h ''figure.dpi'' (PInt n)" and n: "n \<noteq> 0"
  shows "set_opts h (Some k) v [(''dpi'', PInt n)] st =
     (None, st\<lparr>options := AList.update ''close'' (PBool True) (AList.update ''show'' (PBool False)
                   (AList.update ''dpi'' (PInt n) (options st))),
               trace := trace st @ jupyter_formats h @ [RcSet ''figure.dpi'' (PInt n)]\<rparr>)"
proof -
  have m: "mergedicts jupyter_kwargs [(''dpi'', PInt n)] =
      [(''dpi'', PInt n), (''show'', PBool False), (''close'', PBool True)]"
    by (simp add: mergedicts_def dict_update_def jupyter_kwargs_def)
  have "map fst (options st) = option_keys"
    using wf by (simp add: wf_store_def)
  then have "set (map fst (options st)) = set option_keys"
    by simp
  then have k: "fst ` set (options st) = set option_keys"
    by simp
  have lp: "set_loop h [(''dpi'', PInt n), (''show'', PBool False), (''close'', PBool True)]
      (st\<lparr>trace := trace st @ jupyter_formats h\<rparr>) False =
     (None, st\<lparr>options := AList.update ''close'' (PBool True) (AList.update ''show'' (PBool False)
                   (AList.update ''dpi'' (PInt n) (options st))),
               trace := trace st @ jupyter_formats h @ [RcSet ''figure.dpi'' (PInt n)]\<rparr>, False)"
    using acc n
    by (simp add: set_item_def resolve_value_def is_default_def matplotlib_keys_def numba_keys_def
        set_matplotlib_global_def rc_assign_def dom_update k option_keys_def)
  have rk: "resolve_kwargs h (Some k) v [(''dpi'', PInt n)] =
      (KwLocal [(''dpi'', PInt n), (''show'', PBool False), (''close'', PBool True)], jupyter_formats h)"
    by (simp add: resolve_kwargs_jupyter [OF j] m)
  have hi: "handle_interactive st (KwLocal [(''dpi'', PInt n), (''show'', PBool False), (''close'', PBool True)]) =
      (None, st, KwLocal [(''dpi'', PInt n), (''show'', PBool False), (''close'', PBool True)])"
    by (simp add: handle_interactive_def)
  have lp': "set_loop h (kw_read st (KwLocal [(''dpi'', PInt n), (''show'', PBool False), (''close'', PBool True)]))
      (st\<lparr>trace := trace st @ jupyter_formats h\<rparr>) False =
     (None, st\<lparr>options := AList.update ''close'' (PBool True) (AList.update ''show'' (PBool False)
                   (AList.update ''dpi'' (PInt n) (options st))),
               trace := trace st @ jupyter_formats h @ [RcSet ''figure.dpi'' (PInt n)]\<rparr>, False)"
    using lp by (simp del: set_loop.simps)
  show ?thesis
    using set_opts_split [OF rk hi lp'] by simp
qed

lemma merge_preset_only: "mergedicts jupyter_kwargs [] = mergedicts jupyter_kwargs [(''dpi'', PInt 100)]"
  by (simp add: mergedicts_def dict_update_def jupyter_kwargs_def)

text \<open>
  C8: for a string key containing \<^verbatim>\<open>jupyter\<close> in any letter case and any positional value,
  \<^verbatim>\<open>set\<close> without overrides returns normally with \<^verbatim>\<open>dpi\<close> 100, \<^verbatim>\<open>show\<close> \<^verbatim>\<open>False\<close> and \<^verbatim>\<open>close\<close> \<^verbatim>\<open>True\<close>,
  provided the plotting library accepts the resolution 100; with the override \<^verbatim>\<open>dpi=300\<close> it
  returns normally with \<^verbatim>\<open>dpi\<close> 300, provided the library accepts 300. In general the overrides
  asked for are the preset with every explicit keyword override on top of it. Whether the
  notebook display hook works has no influence on the error raised or on the stored options:
  its failure never aborts the call.
\<close>

theorem jupyter_preset:
  assumes wf: "wf_store st" and j: "contains (lower k) ''jupyter''"
  shows "(rc_accepts h ''figure.dpi'' (PInt 100) \<longrightarrow>
            fst (set_opts h (Some k) v [] st) = None \<and>
            get_opt (snd (set_opts h (Some k) v [] st)) ''dpi'' = PInt 100 \<and>
            get_opt (snd (set_opts h (Some k) v [] st)) ''show'' = PBool False \<and>
            get_opt (snd (set_opts h (Some k) v [] st)) ''close'' = PBool True) \<and>
         (rc_accepts h ''figure.dpi'' (PInt 300) \<longrightarrow>
            fst (set_opts h (Some k) v [(''dpi'', PInt 300)] st) = None \<and>
            get_opt (snd (set_opts h (Some k) v [(''dpi'', PInt 300)] st)) ''dpi'' = PInt 300 \<and>
            get_opt (snd (set_opts h (Some k) v [(''dpi'', PInt 300)] st)) ''show'' = PBool False \<and>
            get_opt (snd (set_opts h (Some k) v [(''dpi'', PInt 300)] st)) ''close'' = PBool True) \<and>
         (distinct (map fst kwargs) \<longrightarrow>
            (\<forall>key. map_of (requested_overrides h (Some k) v kwargs st) key =
               (case map_of kwargs key of None \<Rightarrow> map_of jupyter_kwargs key | Some w \<Rightarrow> Some w))) \<and>
         fst (set_opts (h\<lparr>inline_available := False\<rparr>) (Some k) v kwargs st) =
           fst (set_opts h (Some k) v kwargs st) \<and>
         options (snd (set_opts (h\<lparr>inline_available := False\<rparr>) (Some k) v kwargs st)) =
           options (snd (set_opts h (Some k) v kwargs st))"
proof -
  have same: "set_opts h (Some k) v [] st = set_opts h (Some k) v [(''dpi'', PInt 100)] st"
    by (simp add: set_opts_def resolve_kwargs_jupyter [OF j] merge_preset_only)
  have a: "fst (set_opts h (Some k) v [] st) = None \<and>
            get_opt (snd (set_opts h (Some k) v [] st)) ''dpi'' = PInt 100 \<and>
            get_opt (snd (set_opts h (Some k) v [] st)) ''show'' = PBool False \<and>
            get_opt (snd (set_opts h (Some k) v [] st)) ''close'' = PBool True"
    if "rc_accepts h ''figure.dpi'' (PInt 100)"
    unfolding same
    by (simp add: jupyter_call [OF wf j that] get_opt_def update_conv')
  have b: "fst (set_opts h (Some k) v [(''dpi'', PInt 300)] st) = None \<and>
            get_opt (snd (set_opts h (Some k) v [(''dpi'', PInt 300)] st)) ''dpi'' = PInt 300 \<and>
            get_opt (snd (set_opts h (Some k) v [(''dpi'', PInt 300)] st)) ''show'' = PBool False \<and>
            get_opt (snd (set_opts h (Some k) v [(''dpi'', PInt 300)] st)) ''close'' = PBool True"
    if "rc_accepts h ''figure.dpi'' (PInt 300)"
    by (simp add: jupyter_call [OF wf j that] get_opt_def update_conv')
  have c: "map_of (requested_overrides h (Some k) v kwargs st) key =
               (case map_of kwargs key of None \<Rightarrow> map_of jupyter_kwargs key | Some w \<Rightarrow> Some w)"
    if "distinct (map fst kwargs)" for key
  proof -
    have "distinct (map fst jupyter_kwargs)"
      by (simp add: jupyter_kwargs_def)
    from map_of_mergedicts [OF this that] show ?thesis
      by (simp add: requested_overrides_def resolve_kwargs_jupyter [OF j])
  qed
  note d = set_opts_inline [of False h "Some k" v kwargs st]
  show ?thesis
    using a b c d by blast
qed

theorem jupyter_preset_witness:
  "fst (set_opts host_plain (Some ''jupyter'') PNone [] store_plain) = None \<and>
   get_opt (snd (set_opts host_plain (Some ''jupyter'') PNone [] store_plain)) ''dpi'' = PInt 100 \<and>
   get_opt (snd (set_opts host_plain (Some ''jupyter'') PNone [] store_plain)) ''show'' = PBool False \<and>
   get_opt (snd (set_opts host_plain (Some ''jupyter'') PNone [] store_plain)) ''close'' = PBool True \<and>
   get_opt (snd (set_opts host_plain (Some ''jupyter'') PNone [(''dpi'', PInt 300)] store_plain)) ''dpi'' = PInt 300 \<and>
   map_of (requested_overrides host_plain (Some ''jupyter'') PNone [(''dpi'', PInt 300)] store_plain) ''dpi'' =
     Some (PInt 300)"
proof -
  have j: "contains (lower ''jupyter'') ''jupyter''"
    by code_simp
  have a: "rc_accepts host_plain ''figure.dpi'' (PInt 100)" "rc_accepts host_plain ''figure.dpi'' (PInt 300)"
    by (simp_all add: host_plain_def)
  have d: "distinct (map fst [(''dpi'', PInt 300)])"
    by simp
  show ?thesis
    using jupyter_preset [OF wf_store_plain j, of host_plain PNone "[(''dpi'', PInt 300)]"] a d
    by simp
qed

section \<open>A call without key and overrides\<close>

text \<open>
  C10: for every value \<open>v\<close>, \<^verbatim>\<open>set(None, v)\<close> without keyword overrides is a no-op: it returns
  normally and leaves the whole store as it was, the live options, the captured defaults and
  the record of calls into the plotting library and of reloads (no such call is made).
\<close>

theorem set_none_noop: "set_opts h None v [] st = (None, st)"
  by (simp add: set_opts_def resolve_kwargs_def handle_interactive_def)

end
